theory Spec2Isabelle
  imports Main "HOL-Library.Word"
begin

section \<open>JavaScript values the component handles\<close>

text \<open>
  A JavaScript string is a sequence of UTF-16 code units. String literals of the source are
  written through \<open>utf16\<close>.
\<close>

type_synonym jsstring = "16 word list"

definition utf16 :: "string \<Rightarrow> jsstring" where
  "utf16 s = map of_char s"

text \<open>
  \<open>String.prototype.trim\<close> strips the ECMAScript WhiteSpace and LineTerminator code points
  from both ends: TAB, LF, VT, FF, CR, SP, NBSP, the other space separators
  (U+1680, U+2000 to U+200A, U+202F, U+205F, U+3000), LS, PS and ZWNBSP.
\<close>

definition isWhiteSpace :: "16 word \<Rightarrow> bool" where
  "isWhiteSpace c =
     (c \<in> {0x09, 0x0A, 0x0B, 0x0C, 0x0D, 0x20, 0xA0, 0x1680,
            0x2028, 0x2029, 0x202F, 0x205F, 0x3000, 0xFEFF}
      \<or> (0x2000 \<le> c \<and> c \<le> 0x200A))"

definition trim :: "jsstring \<Rightarrow> jsstring" where
  "trim s = rev (dropWhile isWhiteSpace (rev (dropWhile isWhiteSpace s)))"

text \<open>
  What a \<open>catch\<close> clause can receive: an instance of \<open>Error\<close> with its message, or any
  other thrown value.
\<close>

datatype thrown = ErrorInstance jsstring | OtherValue

text \<open>\<open>err instanceof Error ? err.message : fallback\<close>\<close>

fun message_or :: "jsstring \<Rightarrow> thrown \<Rightarrow> jsstring" where
  "message_or fallback (ErrorInstance m) = m"
| "message_or fallback OtherValue = fallback"

text \<open>
  The value \<open>response.json()\<close> resolves to. The elements of an array are taken at the type the
  source declares for them (\<open>Player[]\<close>, \<open>PlayerAction[]\<close>); the other shapes are the
  values for which \<open>Array.isArray\<close> is false.
\<close>

datatype 'a json_value =
    JArray "'a list"
  | JNull
  | JBoolean bool
  | JNumber int
  | JString jsstring
  | JObject

fun isArray :: "'a json_value \<Rightarrow> bool" where
  "isArray (JArray xs) = True"
| "isArray v = False"

text \<open>
  A settled \<open>fetch\<close>: the promise rejects with a thrown value (transport failure), or it
  resolves to a response with its \<open>ok\<close> flag and the outcome of parsing its body, which is
  itself a rejection or a value.
\<close>

record 'a response =
  ok :: bool
  json :: "thrown + 'a json_value"

type_synonym 'a settled = "thrown + 'a response"

section \<open>Data model\<close>

record Player =
  p_id :: jsstring
  name :: jsstring
  hp :: int
  strength :: int
  dexterity :: int
  intelligence :: int
  gold :: int

record PlayerAction =
  a_id :: jsstring
  player_id :: jsstring
  action_text :: jsstring
  turn_number :: nat
  created_at :: "jsstring option"

text \<open>The seven \<open>useState\<close> cells of \<open>App\<close>.\<close>

record app_state =
  players :: "Player list"
  selectedPlayerId :: jsstring
  selectedPlayer :: "Player option"
  actions :: "PlayerAction list"
  newActionText :: jsstring
  loading :: bool
  error :: "jsstring option"

text \<open>The JSON body of the POST request.\<close>

record action_body =
  post_player_id :: jsstring
  post_action_text :: jsstring
  post_turn_number :: nat

text \<open>
  The three requests the component issues, all against \<open>API_URL\<close>:
  \<open>GET ?resource=players\<close>, \<open>GET ?resource=actions&player_id=...\<close> and
  \<open>POST ?resource=actions\<close> with a JSON body.
\<close>

datatype request =
    GetPlayers
  | GetActions jsstring
  | PostAction action_body

text \<open>
  The component together with what it has done to the outside: the requests issued and not
  yet settled (in issue order), the messages passed to \<open>alert\<close>, and the values passed to
  \<open>console.error\<close>.
\<close>

record world =
  app :: app_state
  in_flight :: "request list"
  alerts :: "jsstring list"
  console :: "thrown list"

section \<open>State setters and outside effects\<close>

definition setPlayers :: "Player list \<Rightarrow> world \<Rightarrow> world" where
  "setPlayers v w = w\<lparr>app := (app w)\<lparr>players := v\<rparr>\<rparr>"

definition setSelectedPlayerId :: "jsstring \<Rightarrow> world \<Rightarrow> world" where
  "setSelectedPlayerId v w = w\<lparr>app := (app w)\<lparr>selectedPlayerId := v\<rparr>\<rparr>"

definition setSelectedPlayer :: "Player option \<Rightarrow> world \<Rightarrow> world" where
  "setSelectedPlayer v w = w\<lparr>app := (app w)\<lparr>selectedPlayer := v\<rparr>\<rparr>"

definition setActions :: "PlayerAction list \<Rightarrow> world \<Rightarrow> world" where
  "setActions v w = w\<lparr>app := (app w)\<lparr>actions := v\<rparr>\<rparr>"

definition setNewActionText :: "jsstring \<Rightarrow> world \<Rightarrow> world" where
  "setNewActionText v w = w\<lparr>app := (app w)\<lparr>newActionText := v\<rparr>\<rparr>"

definition setLoading :: "bool \<Rightarrow> world \<Rightarrow> world" where
  "setLoading v w = w\<lparr>app := (app w)\<lparr>loading := v\<rparr>\<rparr>"

definition setError :: "jsstring option \<Rightarrow> world \<Rightarrow> world" where
  "setError v w = w\<lparr>app := (app w)\<lparr>error := v\<rparr>\<rparr>"

definition fetch :: "request \<Rightarrow> world \<Rightarrow> world" where
  "fetch r w = w\<lparr>in_flight := in_flight w @ [r]\<rparr>"

definition alert :: "jsstring \<Rightarrow> world \<Rightarrow> world" where
  "alert m w = w\<lparr>alerts := alerts w @ [m]\<rparr>"

definition console_error :: "thrown \<Rightarrow> world \<Rightarrow> world" where
  "console_error e w = w\<lparr>console := console w @ [e]\<rparr>"

section \<open>The functions of \<open>App\<close>\<close>

text \<open>
  An \<open>async\<close> function runs to its first \<open>await\<close> when called and resumes when the awaited
  promise settles. Each is therefore two definitions: the part before the \<open>await\<close> on
  \<open>fetch\<close>, and the part run at settlement (suffix \<open>_settled\<close>), whose \<open>try\<close> block is a
  function into \<open>thrown + _\<close> and whose \<open>catch\<close> handles \<open>Inl\<close>. Between the settlement of
  \<open>fetch\<close> and that of \<open>response.json()\<close> the functions neither read nor write state, so the
  two are one step.
\<close>

subsection \<open>\<open>fetchPlayers\<close>\<close>

definition fetchPlayers :: "world \<Rightarrow> world" where
  "fetchPlayers w = fetch GetPlayers (setLoading True w)"

definition fetchPlayers_try :: "Player settled \<Rightarrow> thrown + Player list" where
  "fetchPlayers_try r =
     (case r of
        Inl err \<Rightarrow> Inl err
      | Inr response \<Rightarrow>
          if ok response then
            (case json response of
               Inl err \<Rightarrow> Inl err
             | Inr data \<Rightarrow> Inr (case data of JArray xs \<Rightarrow> xs | _ \<Rightarrow> []))
          else Inl (ErrorInstance (utf16 ''Failed to fetch players'')))"

definition fetchPlayers_settled :: "Player settled \<Rightarrow> world \<Rightarrow> world" where
  "fetchPlayers_settled r w =
     setLoading False
       (case fetchPlayers_try r of
          Inr data \<Rightarrow> setPlayers data w
        | Inl err \<Rightarrow> setError (Some (message_or (utf16 ''Unknown error'') err)) w)"

subsection \<open>\<open>fetchActions\<close>\<close>

definition fetchActions :: "jsstring \<Rightarrow> world \<Rightarrow> world" where
  "fetchActions playerId w = fetch (GetActions playerId) w"

definition fetchActions_try :: "PlayerAction settled \<Rightarrow> thrown + PlayerAction list" where
  "fetchActions_try r =
     (case r of
        Inl err \<Rightarrow> Inl err
      | Inr response \<Rightarrow>
          if ok response then
            (case json response of
               Inl err \<Rightarrow> Inl err
             | Inr data \<Rightarrow> Inr (case data of JArray xs \<Rightarrow> xs | _ \<Rightarrow> []))
          else Inl (ErrorInstance (utf16 ''Failed to fetch actions'')))"

definition fetchActions_settled :: "PlayerAction settled \<Rightarrow> world \<Rightarrow> world" where
  "fetchActions_settled r w =
     (case fetchActions_try r of
        Inr data \<Rightarrow> setActions data w
      | Inl err \<Rightarrow> console_error err w)"

subsection \<open>The effect on \<open>[selectedPlayerId, players]\<close>\<close>

definition selection_effect :: "world \<Rightarrow> world" where
  "selection_effect w =
     (if selectedPlayerId (app w) = [] then setActions [] (setSelectedPlayer None w)
      else
        let player = find (\<lambda>p. p_id p = selectedPlayerId (app w)) (players (app w))
        in fetchActions (selectedPlayerId (app w)) (setSelectedPlayer player w))"

subsection \<open>\<open>handleSubmitAction\<close>\<close>

definition handleSubmitAction :: "world \<Rightarrow> world" where
  "handleSubmitAction w =
     (if selectedPlayerId (app w) = [] \<or> trim (newActionText (app w)) = [] then w
      else
        let nextTurn = length (actions (app w)) + 1
        in fetch (PostAction \<lparr>post_player_id = selectedPlayerId (app w),
                              post_action_text = newActionText (app w),
                              post_turn_number = nextTurn\<rparr>) w)"

text \<open>
  The continuation closes over the \<open>selectedPlayerId\<close> of the render in which the form was
  submitted; it is passed as the first argument.
\<close>

definition handleSubmitAction_try :: "'a settled \<Rightarrow> thrown + unit" where
  "handleSubmitAction_try r =
     (case r of
        Inl err \<Rightarrow> Inl err
      | Inr response \<Rightarrow>
          if ok response then Inr ()
          else Inl (ErrorInstance (utf16 ''Failed to submit action'')))"

definition handleSubmitAction_settled :: "jsstring \<Rightarrow> 'a settled \<Rightarrow> world \<Rightarrow> world" where
  "handleSubmitAction_settled selectedPlayerId0 r w =
     (case handleSubmitAction_try r of
        Inr u \<Rightarrow> fetchActions selectedPlayerId0 (setNewActionText [] w)
      | Inl err \<Rightarrow> alert (message_or (utf16 ''Failed to submit action'') err) w)"

section \<open>The component as a transition system\<close>

text \<open>The initial values of the state cells, with nothing done to the outside yet.\<close>

definition initial :: world where
  "initial =
     \<lparr>app = \<lparr>players = [], selectedPlayerId = [], selectedPlayer = None, actions = [],
             newActionText = [], loading = False, error = None\<rparr>,
      in_flight = [], alerts = [], console = []\<rparr>"

text \<open>
  After the first render both effects run, in the order they are declared: the one with no
  dependencies calls \<open>fetchPlayers\<close>, then the selection effect.
\<close>

definition mounted :: world where
  "mounted = selection_effect (fetchPlayers initial)"

text \<open>
  What can happen afterwards: the two \<open>onChange\<close> handlers, the form's \<open>onSubmit\<close>, and the
  settlement of a request that is in flight. The selection effect runs again after a render
  in which one of its dependencies changed: \<open>selectedPlayerId\<close> is compared by value (so
  setting it to the value it has does nothing), \<open>players\<close> by identity, and each
  \<open>setPlayers\<close> stores a fresh array. A handler sees the state of the latest render.

  A settlement is possible only for a request in flight, and removes it: \<open>step\<close> is \<open>None\<close>
  otherwise. Requests settle in any order.

  Left out: \<open>e.preventDefault()\<close>, which acts on the DOM event only, and the markup. The page
  disables the select while loading, offers only the ids of the player list, and shows the
  form only with a snapshot; the transition system does not impose this, so it has every
  behaviour of the page and more.
\<close>

datatype event =
    SelectPlayer jsstring
  | TypeText jsstring
  | SubmitForm
  | PlayersSettled "Player settled"
  | ActionsSettled jsstring "PlayerAction settled"
  | PostSettled action_body "PlayerAction settled"

definition settle :: "request \<Rightarrow> world \<Rightarrow> world" where
  "settle r w = w\<lparr>in_flight := remove1 r (in_flight w)\<rparr>"

fun step :: "event \<Rightarrow> world \<Rightarrow> world option" where
  "step (SelectPlayer v) w =
     Some (if v = selectedPlayerId (app w) then w
           else selection_effect (setSelectedPlayerId v w))"
| "step (TypeText v) w = Some (setNewActionText v w)"
| "step SubmitForm w = Some (handleSubmitAction w)"
| "step (PlayersSettled r) w =
     (if GetPlayers \<in> set (in_flight w) then
        Some (let w' = fetchPlayers_settled r (settle GetPlayers w)
              in case fetchPlayers_try r of Inr data \<Rightarrow> selection_effect w' | Inl err \<Rightarrow> w')
      else None)"
| "step (ActionsSettled playerId r) w =
     (if GetActions playerId \<in> set (in_flight w) then
        Some (fetchActions_settled r (settle (GetActions playerId) w))
      else None)"
| "step (PostSettled b r) w =
     (if PostAction b \<in> set (in_flight w) then
        Some (handleSubmitAction_settled (post_player_id b) r (settle (PostAction b) w))
      else None)"

fun run :: "event list \<Rightarrow> world \<Rightarrow> world option" where
  "run [] w = Some w"
| "run (e # es) w = (case step e w of None \<Rightarrow> None | Some w' \<Rightarrow> run es w')"

section \<open>Notions the properties are stated with\<close>

text \<open>Blank text: empty, or white space only.\<close>

definition blank :: "jsstring \<Rightarrow> bool" where
  "blank s = list_all isWhiteSpace s"

text \<open>A request fails when its promise rejects or its response has a non-success status.\<close>

definition request_failed :: "'a settled \<Rightarrow> bool" where
  "request_failed r = (case r of Inl err \<Rightarrow> True | Inr response \<Rightarrow> \<not> ok response)"

text \<open>A successful response whose body parses to the array \<open>xs\<close>.\<close>

definition resolved :: "'a list \<Rightarrow> 'a settled" where
  "resolved xs = Inr \<lparr>ok = True, json = Inr (JArray xs)\<rparr>"

text \<open>Every entry of the displayed log belongs to the selected player.\<close>

definition log_scoped :: "world \<Rightarrow> bool" where
  "log_scoped w = list_all (\<lambda>a. player_id a = selectedPlayerId (app w)) (actions (app w))"

text \<open>
  Two facts that hold in every world reachable from \<open>mounted\<close>: the player list is empty
  and the flag is up exactly while the one player-list request is in flight; the snapshot
  is what the selection effect derives from the selected id and the player list.
\<close>

definition loading_inv :: "world \<Rightarrow> bool" where
  "loading_inv w =
     (if GetPlayers \<in> set (in_flight w)
      then count_list (in_flight w) GetPlayers = 1 \<and> players (app w) = [] \<and> loading (app w)
      else \<not> loading (app w))"

definition snapshot_inv :: "world \<Rightarrow> bool" where
  "snapshot_inv w =
     (selectedPlayer (app w) =
        (if selectedPlayerId (app w) = [] then None
         else find (\<lambda>p. p_id p = selectedPlayerId (app w)) (players (app w))))"

section \<open>Example data\<close>

definition rogue :: Player where
  "rogue = \<lparr>p_id = utf16 ''p1'', name = utf16 ''Rogue'', hp = 10, strength = 5,
            dexterity = 8, intelligence = 4, gold = 20\<rparr>"

definition mage :: Player where
  "mage = \<lparr>p_id = utf16 ''p2'', name = utf16 ''Mage'', hp = 7, strength = 3,
           dexterity = 5, intelligence = 9, gold = 12\<rparr>"

definition pick_lock :: PlayerAction where
  "pick_lock = \<lparr>a_id = utf16 ''a1'', player_id = utf16 ''p1'',
                action_text = utf16 ''Pick the lock'', turn_number = 1, created_at = None\<rparr>"

text \<open>A world with nothing in flight and nothing reported, showing the given state.\<close>

definition showing ::
  "Player list \<Rightarrow> jsstring \<Rightarrow> Player option \<Rightarrow> PlayerAction list \<Rightarrow> jsstring \<Rightarrow> world" where
  "showing ps i p as t =
     \<lparr>app = \<lparr>players = ps, selectedPlayerId = i, selectedPlayer = p, actions = as,
             newActionText = t, loading = False, error = None\<rparr>,
      in_flight = [], alerts = [], console = []\<rparr>"

text \<open>Both players loaded, nobody selected.\<close>

definition roster :: world where
  "roster = showing [rogue, mage] [] None [] []"

text \<open>The rogue selected with no actions yet, and drafts of three kinds in the text area.\<close>

definition drafting :: world where
  "drafting = showing [rogue] (utf16 ''p1'') (Some rogue) [] (utf16 ''Pick the lock'')"

definition padded_draft :: world where
  "padded_draft = showing [rogue] (utf16 ''p1'') (Some rogue) [] (utf16 '' hi '')"

definition blank_draft :: world where
  "blank_draft = showing [rogue] (utf16 ''p1'') (Some rogue) [] [0x20, 0x09, 0xA0]"

definition first_post :: action_body where
  "first_post = \<lparr>post_player_id = utf16 ''p1'', post_action_text = utf16 ''Pick the lock'',
                 post_turn_number = 1\<rparr>"

definition submitted :: world where
  "submitted = fetch (PostAction first_post) drafting"

text \<open>The rogue selected with one action shown and a second one drafted, then submitted.\<close>

definition redrafting :: world where
  "redrafting = showing [rogue] (utf16 ''p1'') (Some rogue) [pick_lock] (utf16 ''Run'')"

definition second_post :: action_body where
  "second_post = \<lparr>post_player_id = utf16 ''p1'', post_action_text = utf16 ''Run'',
                  post_turn_number = 2\<rparr>"

definition resubmitted :: world where
  "resubmitted = fetch (PostAction second_post) redrafting"

text \<open>The rogue selected with one action shown; then the mage selected, the fetch pending.\<close>

definition viewing :: world where
  "viewing = showing [rogue, mage] (utf16 ''p1'') (Some rogue) [pick_lock] []"

definition reselected :: world where
  "reselected =
     fetch (GetActions (utf16 ''p2''))
       (showing [rogue, mage] (utf16 ''p2'') (Some mage) [pick_lock] [])"

definition old_log_trace :: "event list" where
  "old_log_trace =
     [PlayersSettled (resolved [rogue, mage]),
      SelectPlayer (utf16 ''p1''),
      ActionsSettled (utf16 ''p1'') (resolved [pick_lock]),
      SelectPlayer (utf16 ''p2'')]"

definition unreachable :: "'a settled" where
  "unreachable = Inl (ErrorInstance (utf16 ''Failed to fetch''))"

section \<open>Basic facts\<close>

lemmas setters = setPlayers_def setSelectedPlayerId_def setSelectedPlayer_def setActions_def
  setNewActionText_def setLoading_def setError_def

lemmas outside = fetch_def alert_def console_error_def settle_def

lemmas handlers = fetchPlayers_def fetchPlayers_settled_def fetchActions_def
  fetchActions_settled_def selection_effect_def handleSubmitAction_def
  handleSubmitAction_settled_def

lemma trim_Nil_iff: "trim s = [] \<longleftrightarrow> blank s"
proof -
  have "trim s = [] \<longleftrightarrow> (\<forall>c\<in>set (dropWhile isWhiteSpace s). isWhiteSpace c)"
    by (simp add: trim_def)
  also have "\<dots> \<longleftrightarrow> (\<forall>c\<in>set s. isWhiteSpace c)"
    by (induction s) auto
  also have "\<dots> \<longleftrightarrow> blank s"
    by (simp add: blank_def list_all_iff)
  finally show ?thesis .
qed

section \<open>Submitting an action\<close>

text \<open>
  C4. A submission with no player selected, or with blank text (empty or white space only),
  does nothing: the world after it is the world before it, so no request is issued, nothing
  is alerted or logged, and every state cell keeps its value.
\<close>

theorem submit_rejected_is_noop:
  assumes "selectedPlayerId (app w) = [] \<or> blank (newActionText (app w))"
  shows "step SubmitForm w = Some w"
  using assms by (auto simp: handleSubmitAction_def trim_Nil_iff)

theorem submit_rejected_is_noop_witness:
  "blank (newActionText (app blank_draft)) \<and> step SubmitForm blank_draft = Some blank_draft
   \<and> selectedPlayerId (app roster) = [] \<and> step SubmitForm roster = Some roster"
proof -
  have h1: "blank (newActionText (app blank_draft))"
    by (simp add: blank_draft_def showing_def blank_def isWhiteSpace_def)
  have h2: "selectedPlayerId (app roster) = []"
    by (simp add: roster_def showing_def)
  show ?thesis
    using h1 h2 submit_rejected_is_noop [of blank_draft] submit_rejected_is_noop [of roster]
    by simp
qed

text \<open>
  C2. A submission of non-blank text with a player selected issues one create request whose
  \<open>turn_number\<close> is one more than the number of entries in the displayed action log.
\<close>

theorem submit_turn_number:
  assumes "selectedPlayerId (app w) \<noteq> []" and "\<not> blank (newActionText (app w))"
    and "step SubmitForm w = Some w'"
  shows "\<exists>b. in_flight w' = in_flight w @ [PostAction b]
           \<and> post_turn_number b = length (actions (app w)) + 1"
  using assms by (auto simp: handleSubmitAction_def trim_Nil_iff fetch_def)

theorem submit_turn_number_witness:
  "selectedPlayerId (app drafting) \<noteq> [] \<and> \<not> blank (newActionText (app drafting))
   \<and> step SubmitForm drafting = Some submitted
   \<and> in_flight submitted = [PostAction first_post] \<and> post_turn_number first_post = 1
   \<and> (\<exists>b. in_flight submitted = in_flight drafting @ [PostAction b]
          \<and> post_turn_number b = length (actions (app drafting)) + 1)"
proof -
  have h1: "selectedPlayerId (app drafting) \<noteq> []"
    by (simp add: drafting_def showing_def utf16_def)
  have h2: "\<not> blank (newActionText (app drafting))"
    by (simp add: drafting_def showing_def utf16_def blank_def isWhiteSpace_def)
  have h3: "step SubmitForm drafting = Some submitted"
    using h1 h2
    by (simp add: handleSubmitAction_def trim_Nil_iff)
      (simp add: submitted_def first_post_def drafting_def showing_def fetch_def)
  have h4: "in_flight submitted = [PostAction first_post] \<and> post_turn_number first_post = 1"
    by (simp add: submitted_def first_post_def drafting_def showing_def fetch_def)
  show ?thesis
    using h1 h2 h3 h4 submit_turn_number [OF h1 h2 h3] by simp
qed

text \<open>
  C10. A submission of text with at least one non-white-space character sends the content
  of the text area as it is: the \<open>action_text\<close> of the request is the raw buffer, with its
  leading and trailing white space, although the check for blank text is made on the
  trimmed text.
\<close>

theorem submit_sends_raw_text:
  assumes "selectedPlayerId (app w) \<noteq> []" and "\<not> blank (newActionText (app w))"
    and "step SubmitForm w = Some w'"
  shows "\<exists>b. in_flight w' = in_flight w @ [PostAction b]
           \<and> post_action_text b = newActionText (app w)"
  using assms by (auto simp: handleSubmitAction_def trim_Nil_iff fetch_def)

theorem submit_sends_raw_text_witness:
  "selectedPlayerId (app padded_draft) \<noteq> []
   \<and> trim (newActionText (app padded_draft)) = utf16 ''hi''
   \<and> newActionText (app padded_draft) = utf16 '' hi ''
   \<and> (\<exists>b. in_flight (the (step SubmitForm padded_draft)) = in_flight padded_draft @ [PostAction b]
          \<and> post_action_text b = utf16 '' hi '')"
proof -
  have h1: "selectedPlayerId (app padded_draft) \<noteq> []"
    by (simp add: padded_draft_def showing_def utf16_def)
  have h2: "trim (newActionText (app padded_draft)) = utf16 ''hi''"
    by (simp add: padded_draft_def showing_def utf16_def trim_def isWhiteSpace_def)
  have h3: "newActionText (app padded_draft) = utf16 '' hi ''"
    by (simp add: padded_draft_def showing_def)
  have h4: "\<not> blank (newActionText (app padded_draft))"
    by (simp add: padded_draft_def showing_def utf16_def blank_def isWhiteSpace_def)
  have h5: "step SubmitForm padded_draft = Some (the (step SubmitForm padded_draft))"
    by simp
  show ?thesis
    using h1 h2 h3 submit_sends_raw_text [OF h1 h4 h5] by simp
qed

text \<open>
  What the three steps of a submission do, each for any world: an accepted submission only
  adds the create request; a failed settlement only alerts; a successful one only empties
  the text area and asks for the log again.
\<close>

lemma submit_accepted:
  assumes "selectedPlayerId (app w) \<noteq> []" and "\<not> blank (newActionText (app w))"
  shows "step SubmitForm w =
     Some (fetch (PostAction \<lparr>post_player_id = selectedPlayerId (app w),
                               post_action_text = newActionText (app w),
                               post_turn_number = length (actions (app w)) + 1\<rparr>) w)"
  using assms by (simp add: handleSubmitAction_def trim_Nil_iff)


lemma post_success_step:
  assumes "PostAction b \<in> set (in_flight w)" and "r = Inr response" and "ok response"
  shows "\<exists>w'. step (PostSettled b r) w = Some w'
     \<and> app w' = (app w)\<lparr>newActionText := []\<rparr>
     \<and> newActionText (app w') = []
     \<and> actions (app w') = actions (app w)
     \<and> in_flight w' = remove1 (PostAction b) (in_flight w) @ [GetActions (post_player_id b)]
     \<and> alerts w' = alerts w
     \<and> console w' = console w
     \<and> (\<forall>xs. \<exists>w''. step (ActionsSettled (post_player_id b) (resolved xs)) w' = Some w''
              \<and> actions (app w'') = xs)"
  using assms
  by (auto simp: handleSubmitAction_settled_def handleSubmitAction_try_def resolved_def
      fetchActions_def fetchActions_settled_def fetchActions_try_def setters outside)



text \<open>
  C6. An accepted submission changes no state cell: it only puts the create request in
  flight, and appends nothing to the action log. When that request then succeeds, the only
  state cell that changes is the text area, which is emptied, and one fetch of the action
  log of the submitted player id is issued; the log still has the entries from before the
  submission, and it becomes the array of the response when that fetch resolves
  successfully. The same holds for a successful settlement in any world.
\<close>

theorem submit_success_clears_and_refetches:
  assumes "selectedPlayerId (app w) \<noteq> []" and "\<not> blank (newActionText (app w))"
    and "r = Inr response" and "ok response"
    and "PostAction b \<in> set (in_flight u)"
  shows "(\<exists>w1 b1. step SubmitForm w = Some w1
            \<and> app w1 = app w
            \<and> in_flight w1 = in_flight w @ [PostAction b1]
            \<and> post_player_id b1 = selectedPlayerId (app w)
            \<and> (\<exists>w2. step (PostSettled b1 r) w1 = Some w2
                 \<and> app w2 = (app w)\<lparr>newActionText := []\<rparr>
                 \<and> newActionText (app w2) = []
                 \<and> actions (app w2) = actions (app w)
                 \<and> in_flight w2 = remove1 (PostAction b1) (in_flight w @ [PostAction b1])
                                   @ [GetActions (selectedPlayerId (app w))]
                 \<and> alerts w2 = alerts w
                 \<and> (\<forall>xs. \<exists>w3. step (ActionsSettled (selectedPlayerId (app w)) (resolved xs)) w2
                                  = Some w3
                          \<and> actions (app w3) = xs)))
       \<and> (\<exists>u'. step (PostSettled b r) u = Some u'
            \<and> app u' = (app u)\<lparr>newActionText := []\<rparr>
            \<and> newActionText (app u') = []
            \<and> actions (app u') = actions (app u)
            \<and> in_flight u' = remove1 (PostAction b) (in_flight u) @ [GetActions (post_player_id b)]
            \<and> alerts u' = alerts u
            \<and> (\<forall>xs. \<exists>u''. step (ActionsSettled (post_player_id b) (resolved xs)) u' = Some u''
                     \<and> actions (app u'') = xs))"
proof -
  define b1 where "b1 = \<lparr>post_player_id = selectedPlayerId (app w),
      post_action_text = newActionText (app w),
      post_turn_number = length (actions (app w)) + 1\<rparr>"
  define w1 where "w1 = fetch (PostAction b1) w"
  have s: "step SubmitForm w = Some w1"
    using submit_accepted[OF assms(1,2)] by (simp add: w1_def b1_def)
  have f: "app w1 = app w" "alerts w1 = alerts w"
    "in_flight w1 = in_flight w @ [PostAction b1]"
    "post_player_id b1 = selectedPlayerId (app w)"
    by (simp_all add: w1_def b1_def fetch_def)
  have "PostAction b1 \<in> set (in_flight w1)" using f(3) by simp
  from post_success_step[OF this assms(3,4)] obtain w2 where w2:
    "step (PostSettled b1 r) w1 = Some w2"
    "app w2 = (app w1)\<lparr>newActionText := []\<rparr>"
    "in_flight w2 = remove1 (PostAction b1) (in_flight w1) @ [GetActions (post_player_id b1)]"
    "alerts w2 = alerts w1"
    "\<forall>xs. \<exists>w3. step (ActionsSettled (post_player_id b1) (resolved xs)) w2 = Some w3
              \<and> actions (app w3) = xs"
    by blast
  have first: "\<exists>w1 b1. step SubmitForm w = Some w1
            \<and> app w1 = app w
            \<and> in_flight w1 = in_flight w @ [PostAction b1]
            \<and> post_player_id b1 = selectedPlayerId (app w)
            \<and> (\<exists>w2. step (PostSettled b1 r) w1 = Some w2
                 \<and> app w2 = (app w)\<lparr>newActionText := []\<rparr>
                 \<and> newActionText (app w2) = []
                 \<and> actions (app w2) = actions (app w)
                 \<and> in_flight w2 = remove1 (PostAction b1) (in_flight w @ [PostAction b1])
                                   @ [GetActions (selectedPlayerId (app w))]
                 \<and> alerts w2 = alerts w
                 \<and> (\<forall>xs. \<exists>w3. step (ActionsSettled (selectedPlayerId (app w)) (resolved xs)) w2
                                  = Some w3
                          \<and> actions (app w3) = xs))"
    using s f w2 by (intro exI[of _ w1] exI[of _ b1] conjI exI[of _ w2]) simp_all
  have second: "\<exists>u'. step (PostSettled b r) u = Some u'
            \<and> app u' = (app u)\<lparr>newActionText := []\<rparr>
            \<and> newActionText (app u') = []
            \<and> actions (app u') = actions (app u)
            \<and> in_flight u' = remove1 (PostAction b) (in_flight u) @ [GetActions (post_player_id b)]
            \<and> alerts u' = alerts u
            \<and> (\<forall>xs. \<exists>u''. step (ActionsSettled (post_player_id b) (resolved xs)) u' = Some u''
                     \<and> actions (app u'') = xs)"
    using post_success_step[OF assms(5,3,4)] by blast
  show ?thesis using first second by blast
qed

theorem submit_success_clears_and_refetches_witness:
  "selectedPlayerId (app redrafting) \<noteq> [] \<and> \<not> blank (newActionText (app redrafting))
   \<and> ok \<lparr>ok = True, json = Inr (JObject :: PlayerAction json_value)\<rparr>
   \<and> PostAction first_post \<in> set (in_flight submitted)
   \<and> step SubmitForm redrafting = Some resubmitted
   \<and> actions (app resubmitted) = [pick_lock]
   \<and> newActionText (app resubmitted) = utf16 ''Run''
   \<and> (\<exists>w2. step (PostSettled second_post (Inr \<lparr>ok = True, json = Inr JObject\<rparr>)) resubmitted
               = Some w2
          \<and> newActionText (app w2) = []
          \<and> actions (app w2) = [pick_lock]
          \<and> in_flight w2 = [GetActions (utf16 ''p1'')])
   \<and> (\<exists>w'. step (PostSettled first_post (Inr \<lparr>ok = True, json = Inr JObject\<rparr>)) submitted = Some w'
          \<and> newActionText (app w') = []
          \<and> actions (app w') = []
          \<and> in_flight w' = [GetActions (utf16 ''p1'')]
          \<and> (\<exists>w''. step (ActionsSettled (utf16 ''p1'') (resolved [pick_lock])) w' = Some w''
                 \<and> actions (app w'') = [pick_lock]))"
proof -
  have h1: "selectedPlayerId (app redrafting) \<noteq> []"
    by (simp add: redrafting_def showing_def utf16_def)
  have h2: "\<not> blank (newActionText (app redrafting))"
    by (simp add: redrafting_def showing_def utf16_def blank_def isWhiteSpace_def)
  have h4: "ok \<lparr>ok = True, json = Inr (JObject :: PlayerAction json_value)\<rparr>"
    by simp
  have h5: "PostAction first_post \<in> set (in_flight submitted)"
    by (simp add: submitted_def fetch_def)
  have s: "step SubmitForm redrafting = Some resubmitted"
    using h1 h2
    by (simp add: handleSubmitAction_def trim_Nil_iff)
      (simp add: resubmitted_def second_post_def redrafting_def showing_def fetch_def)
  have e: "actions (app resubmitted) = [pick_lock]
      \<and> newActionText (app resubmitted) = utf16 ''Run''
      \<and> in_flight resubmitted = [PostAction second_post]
      \<and> in_flight redrafting = []
      \<and> actions (app redrafting) = [pick_lock]
      \<and> selectedPlayerId (app redrafting) = utf16 ''p1''"
    by (simp add: resubmitted_def redrafting_def showing_def fetch_def)
  have e': "actions (app submitted) = [] \<and> in_flight submitted = [PostAction first_post]
      \<and> post_player_id first_post = utf16 ''p1''"
    by (simp add: submitted_def drafting_def showing_def first_post_def fetch_def)
  let ?R = "Inr \<lparr>ok = True, json = Inr (JObject :: PlayerAction json_value)\<rparr>
             :: PlayerAction settled"
  note T = submit_success_clears_and_refetches [OF h1 h2 refl h4 h5]
  from T obtain w1 b1 w2 where A:
    "step SubmitForm redrafting = Some w1"
    "in_flight w1 = in_flight redrafting @ [PostAction b1]"
    "step (PostSettled b1 ?R) w1 = Some w2"
    "newActionText (app w2) = []"
    "actions (app w2) = actions (app redrafting)"
    "in_flight w2 = remove1 (PostAction b1) (in_flight redrafting @ [PostAction b1])
                    @ [GetActions (selectedPlayerId (app redrafting))]"
    by blast
  have w1: "w1 = resubmitted" using A(1) s by simp
  then have b1: "b1 = second_post" using A(2) e by simp
  have t1: "\<exists>w2. step (PostSettled second_post ?R) resubmitted = Some w2
          \<and> newActionText (app w2) = []
          \<and> actions (app w2) = [pick_lock]
          \<and> in_flight w2 = [GetActions (utf16 ''p1'')]"
    using A(3,4,5,6) w1 b1 e by (intro exI[of _ w2]) simp
  from T obtain u' where B:
    "step (PostSettled first_post ?R) submitted = Some u'"
    "newActionText (app u') = []"
    "actions (app u') = actions (app submitted)"
    "in_flight u' = remove1 (PostAction first_post) (in_flight submitted)
                    @ [GetActions (post_player_id first_post)]"
    "\<forall>xs. \<exists>u''. step (ActionsSettled (post_player_id first_post) (resolved xs)) u' = Some u''
              \<and> actions (app u'') = xs"
    by blast
  from B(5) obtain u'' where C:
    "step (ActionsSettled (post_player_id first_post) (resolved [pick_lock])) u' = Some u''"
    "actions (app u'') = [pick_lock]"
    by blast
  have t2: "\<exists>w'. step (PostSettled first_post ?R) submitted = Some w'
          \<and> newActionText (app w') = []
          \<and> actions (app w') = []
          \<and> in_flight w' = [GetActions (utf16 ''p1'')]
          \<and> (\<exists>w''. step (ActionsSettled (utf16 ''p1'') (resolved [pick_lock])) w' = Some w''
                 \<and> actions (app w'') = [pick_lock])"
    using B(1,2,3,4) C e' by (intro exI[of _ u'] conjI exI[of _ u'']) simp_all
  show ?thesis using h1 h2 h4 h5 s e t1 t2 by blast
qed

section \<open>Fetching\<close>

text \<open>
  C8. When a fetch of the action log fails (the promise rejects, or the status is not a
  success), the thrown value goes to \<open>console.error\<close> and nowhere else: no state cell
  changes, so the log shown before and the error message are kept, and nothing is alerted.
\<close>

theorem actions_failure_is_silent:
  assumes "GetActions p \<in> set (in_flight w)" and "request_failed r"
  shows "\<exists>w' e. step (ActionsSettled p r) w = Some w'
     \<and> app w' = app w
     \<and> actions (app w') = actions (app w)
     \<and> error (app w') = error (app w)
     \<and> alerts w' = alerts w
     \<and> console w' = console w @ [e]
     \<and> in_flight w' = remove1 (GetActions p) (in_flight w)"
  using assms
  by (auto simp: request_failed_def fetchActions_settled_def fetchActions_try_def
      outside split: sum.splits)

theorem actions_failure_is_silent_witness:
  "GetActions (utf16 ''p2'') \<in> set (in_flight reselected)
   \<and> request_failed (Inr \<lparr>ok = False, json = Inr (JObject :: PlayerAction json_value)\<rparr>)
   \<and> (\<exists>w'. step (ActionsSettled (utf16 ''p2'') (Inr \<lparr>ok = False, json = Inr JObject\<rparr>))
               reselected = Some w'
          \<and> actions (app w') = [pick_lock]
          \<and> error (app w') = None
          \<and> alerts w' = []
          \<and> console w' = [ErrorInstance (utf16 ''Failed to fetch actions'')])"
proof -
  have h1: "GetActions (utf16 ''p2'') \<in> set (in_flight reselected)"
    by (simp add: reselected_def fetch_def)
  have h2: "request_failed (Inr \<lparr>ok = False, json = Inr (JObject :: PlayerAction json_value)\<rparr>)"
    by (simp add: request_failed_def)
  have e: "actions (app reselected) = [pick_lock] \<and> error (app reselected) = None
      \<and> alerts reselected = [] \<and> console reselected = []"
    by (simp add: reselected_def showing_def fetch_def)
  have c: "console (the (step (ActionsSettled (utf16 ''p2'')
              (Inr \<lparr>ok = False, json = Inr JObject\<rparr>)) reselected))
           = [ErrorInstance (utf16 ''Failed to fetch actions'')]"
    using h1 e by (simp add: fetchActions_settled_def fetchActions_try_def outside)
  show ?thesis
    using h1 h2 e c actions_failure_is_silent [OF h1 h2] by fastforce
qed

text \<open>
  C9. When a fetch of the player list, or of an action log, succeeds with a body that
  parses to something other than an array, the \<open>try\<close> block throws nothing and stores the
  empty list in the cell concerned; the error message, the alerts and the console are
  untouched.
\<close>

theorem non_array_payload_is_empty:
  assumes "\<not> isArray d" and "\<not> isArray d'"
    and "GetPlayers \<in> set (in_flight w)" and "GetActions p \<in> set (in_flight v)"
  shows "(\<exists>w'. step (PlayersSettled (Inr \<lparr>ok = True, json = Inr d\<rparr>)) w = Some w'
            \<and> fetchPlayers_try (Inr \<lparr>ok = True, json = Inr d\<rparr>) = Inr []
            \<and> players (app w') = []
            \<and> error (app w') = error (app w)
            \<and> alerts w' = alerts w \<and> console w' = console w)
       \<and> (\<exists>v'. step (ActionsSettled p (Inr \<lparr>ok = True, json = Inr d'\<rparr>)) v = Some v'
            \<and> fetchActions_try (Inr \<lparr>ok = True, json = Inr d'\<rparr>) = Inr []
            \<and> actions (app v') = []
            \<and> error (app v') = error (app v)
            \<and> alerts v' = alerts v \<and> console v' = console v)"
proof -
  have d: "(case d of JArray xs \<Rightarrow> xs | _ \<Rightarrow> []) = []"
    using assms(1) by (cases d) auto
  have d': "(case d' of JArray xs \<Rightarrow> xs | _ \<Rightarrow> []) = []"
    using assms(2) by (cases d') auto
  show ?thesis
    using assms(3,4) d d'
    by (auto simp: fetchPlayers_settled_def fetchPlayers_try_def fetchActions_settled_def
      fetchActions_try_def selection_effect_def fetchActions_def setters outside Let_def)
qed

theorem non_array_payload_is_empty_witness:
  "\<not> isArray (JObject :: Player json_value) \<and> \<not> isArray (JNull :: PlayerAction json_value)
   \<and> GetPlayers \<in> set (in_flight mounted)
   \<and> GetActions (utf16 ''p2'') \<in> set (in_flight reselected)
   \<and> actions (app reselected) = [pick_lock]
   \<and> (\<exists>w'. step (PlayersSettled (Inr \<lparr>ok = True, json = Inr JObject\<rparr>)) mounted = Some w'
          \<and> players (app w') = [] \<and> error (app w') = None)
   \<and> (\<exists>v'. step (ActionsSettled (utf16 ''p2'') (Inr \<lparr>ok = True, json = Inr JNull\<rparr>)) reselected
               = Some v'
          \<and> actions (app v') = [] \<and> console v' = [])"
proof -
  have h1: "\<not> isArray (JObject :: Player json_value)" by simp
  have h2: "\<not> isArray (JNull :: PlayerAction json_value)" by simp
  have h3: "GetPlayers \<in> set (in_flight mounted)"
    by (simp add: mounted_def initial_def handlers setters outside)
  have h4: "GetActions (utf16 ''p2'') \<in> set (in_flight reselected)"
    by (simp add: reselected_def fetch_def)
  have e: "actions (app reselected) = [pick_lock] \<and> console reselected = []
      \<and> error (app mounted) = None"
    by (simp add: reselected_def showing_def mounted_def initial_def handlers setters outside)
  show ?thesis
    using h1 h2 h3 h4 e non_array_payload_is_empty [OF h1 h2 h3 h4] by fastforce
qed

section \<open>Facts about every reachable world\<close>

lemma count_list_remove1:
  "count_list (remove1 r xs) x =
     (if x = r \<and> r \<in> set xs then count_list xs x - 1 else count_list xs x)"
  by (induction xs) auto

lemma in_set_count_list: "x \<in> set xs \<longleftrightarrow> 0 < count_list xs x"
  by (induction xs) auto

lemma loading_inv_mounted: "loading_inv mounted"
  by (simp add: loading_inv_def mounted_def initial_def handlers setters outside)

lemma loading_inv_step:
  assumes "loading_inv w" and "step e w = Some w'"
  shows "loading_inv w'"
proof (cases e)
  case (SelectPlayer v)
  then show ?thesis using assms
    by (auto simp: loading_inv_def handlers setters outside Let_def split: if_splits)
next
  case (TypeText v)
  then show ?thesis using assms by (auto simp: loading_inv_def setters)
next
  case SubmitForm
  then show ?thesis using assms
    by (auto simp: loading_inv_def handlers setters outside Let_def split: if_splits)
next
  case (PlayersSettled r)
  then show ?thesis using assms
    by (auto simp: loading_inv_def handlers setters outside Let_def in_set_count_list
        count_list_remove1 split: if_splits sum.splits)
next
  case (ActionsSettled p r)
  then show ?thesis using assms
    by (auto simp: loading_inv_def handlers setters outside Let_def in_set_count_list
        count_list_remove1 split: if_splits sum.splits)
next
  case (PostSettled b r)
  then show ?thesis using assms
    by (auto simp: loading_inv_def handlers setters outside Let_def in_set_count_list
        count_list_remove1 split: if_splits sum.splits)
qed

lemma snapshot_inv_mounted: "snapshot_inv mounted"
  by (simp add: snapshot_inv_def mounted_def initial_def handlers setters outside)

lemma snapshot_inv_step:
  assumes "snapshot_inv w" and "step e w = Some w'"
  shows "snapshot_inv w'"
  using assms
  by (cases e)
    (auto simp: snapshot_inv_def handlers setters outside Let_def split: if_splits sum.splits)

lemma run_invariant:
  assumes base: "P w" and pres: "\<And>e u u'. P u \<Longrightarrow> step e u = Some u' \<Longrightarrow> P u'"
    and "run es w = Some w'"
  shows "P w'"
  using assms(1,3)
proof (induction es arbitrary: w)
  case Nil
  then show ?case by simp
next
  case (Cons e es)
  then show ?case by (auto split: option.splits dest: pres)
qed

lemma reachable_loading_inv: "run es mounted = Some w \<Longrightarrow> loading_inv w"
  using run_invariant[of loading_inv mounted es w] loading_inv_mounted loading_inv_step by blast

lemma reachable_snapshot_inv: "run es mounted = Some w \<Longrightarrow> snapshot_inv w"
  using run_invariant[of snapshot_inv mounted es w] snapshot_inv_mounted snapshot_inv_step by blast

lemma no_players_request_step:
  assumes "GetPlayers \<notin> set (in_flight w)" and "step e w = Some w'"
  shows "GetPlayers \<notin> set (in_flight w')"
  using assms
  by (cases e)
    (auto simp: handlers outside Let_def setters split: if_splits sum.splits
      dest: notin_set_remove1)

lemma find_first:
  "p \<in> set P \<Longrightarrow> distinct (map p_id P) \<Longrightarrow> find (\<lambda>q. p_id q = p_id p) P = Some p"
proof (induction P)
  case Nil
  then show ?case by simp
next
  case (Cons a P)
  show ?case
  proof (cases "p_id a = p_id p")
    case True
    have "p = a"
    proof (rule ccontr)
      assume "p \<noteq> a"
      then have "p \<in> set P" using Cons.prems(1) by simp
      then have "p_id a \<in> p_id ` set P" using True by (simp add: rev_image_eqI)
      then show False using Cons.prems(2) by simp
    qed
    then show ?thesis by simp
  next
    case False
    then have "p \<in> set P" using Cons.prems(1) by auto
    then show ?thesis using False Cons.IH Cons.prems(2) by simp
  qed
qed

lemma find_absent:
  assumes "v \<notin> p_id ` set P"
  shows "find (\<lambda>p. p_id p = v) P = None"
  using assms by (auto simp: find_None_iff)

section \<open>Selecting a player\<close>

text \<open>
  C3. In every reachable world whose player list has no id twice, selecting an id sets the
  snapshot from that list alone (the list is not changed and no player-list request is
  issued): when the id is not empty and occurs in the list, the snapshot is the element
  with that id, and no other element has it; when the id is empty or absent from the list,
  the snapshot is none.
\<close>

theorem snapshot_is_unique_match:
  assumes "run es mounted = Some w"
    and "distinct (map p_id (players (app w)))"
    and "step (SelectPlayer v) w = Some w'"
  shows "selectedPlayerId (app w') = v
     \<and> players (app w') = players (app w)
     \<and> count_list (in_flight w') GetPlayers = count_list (in_flight w) GetPlayers
     \<and> (v \<noteq> [] \<and> v \<in> p_id ` set (players (app w)) \<longrightarrow>
          (\<exists>p. selectedPlayer (app w') = Some p \<and> p \<in> set (players (app w)) \<and> p_id p = v
             \<and> (\<forall>q\<in>set (players (app w)). p_id q = v \<longrightarrow> q = p)))
     \<and> (v = [] \<or> v \<notin> p_id ` set (players (app w)) \<longrightarrow> selectedPlayer (app w') = None)"
proof -
  have inv: "snapshot_inv w" using assms(1) by (rule reachable_snapshot_inv)
  have inv': "snapshot_inv w'" using inv assms(3) by (rule snapshot_inv_step)
  have a: "selectedPlayerId (app w') = v" "players (app w') = players (app w)"
    "count_list (in_flight w') GetPlayers = count_list (in_flight w) GetPlayers"
    using assms(3)
    by (auto simp: fetchActions_def selection_effect_def setters outside Let_def
        split: if_splits)
  have sel: "selectedPlayer (app w') =
      (if v = [] then None else find (\<lambda>p. p_id p = v) (players (app w)))"
    using inv' a by (simp add: snapshot_inv_def)
  have present: "\<exists>p. selectedPlayer (app w') = Some p \<and> p \<in> set (players (app w)) \<and> p_id p = v
             \<and> (\<forall>q\<in>set (players (app w)). p_id q = v \<longrightarrow> q = p)"
    if "v \<noteq> []" and "v \<in> p_id ` set (players (app w))"
  proof -
    from that(2) obtain p where p: "p \<in> set (players (app w))" "p_id p = v" by blast
    have f: "find (\<lambda>q. p_id q = v) (players (app w)) = Some p"
      using find_first[OF p(1) assms(2)] p(2) by simp
    have u: "q = p" if "q \<in> set (players (app w))" "p_id q = v" for q
    proof -
      have "find (\<lambda>r. p_id r = v) (players (app w)) = Some q"
        using find_first[OF that(1) assms(2)] that(2) by simp
      then show ?thesis using f by simp
    qed
    have "selectedPlayer (app w') = Some p" using sel f \<open>v \<noteq> []\<close> by simp
    then show ?thesis using p u by blast
  qed
  have absent: "selectedPlayer (app w') = None"
    if "v = [] \<or> v \<notin> p_id ` set (players (app w))"
  proof (cases "v = []")
    case True
    then show ?thesis using sel by simp
  next
    case False
    then have "v \<notin> p_id ` set (players (app w))" using that by simp
    then show ?thesis using sel False find_absent by simp
  qed
  show ?thesis using a present absent by blast
qed

theorem snapshot_is_unique_match_witness:
  "run [PlayersSettled (resolved [rogue, mage])] mounted = Some roster
   \<and> distinct (map p_id (players (app roster)))
   \<and> selectedPlayer (app (the (step (SelectPlayer (utf16 ''p2'')) roster))) = Some mage
   \<and> selectedPlayer (app (the (step (SelectPlayer (utf16 ''p9'')) roster))) = None"
proof -
  have h1: "run [PlayersSettled (resolved [rogue, mage])] mounted = Some roster"
    by (simp add: mounted_def initial_def roster_def showing_def resolved_def handlers
        fetchPlayers_try_def setters outside)
  have ps: "players (app roster) = [rogue, mage]"
    by (simp add: roster_def showing_def)
  have ids: "p_id rogue = utf16 ''p1'' \<and> p_id mage = utf16 ''p2''"
    by (simp add: rogue_def mage_def)
  have ne: "utf16 ''p1'' \<noteq> utf16 ''p2'' \<and> utf16 ''p2'' \<noteq> [] \<and> utf16 ''p9'' \<noteq> utf16 ''p1''
      \<and> utf16 ''p9'' \<noteq> utf16 ''p2''"
    by (simp add: utf16_def)
  have h2: "distinct (map p_id (players (app roster)))"
    using ps ids ne by simp
  have h3: "step (SelectPlayer v) roster = Some (the (step (SelectPlayer v) roster))" for v
    by simp
  have present: "selectedPlayer (app (the (step (SelectPlayer (utf16 ''p2'')) roster))) = Some mage"
    using snapshot_is_unique_match [OF h1 h2 h3, of "utf16 ''p2''"] ps ids ne by auto
  have absent: "selectedPlayer (app (the (step (SelectPlayer (utf16 ''p9'')) roster))) = None"
    using snapshot_is_unique_match [OF h1 h2 h3, of "utf16 ''p9''"] ps ids ne by auto
  show ?thesis using h1 h2 present absent by simp
qed

text \<open>
  C1, as amended. On a change of selection: when the new id is empty, the action log and the
  snapshot are cleared at once and nothing is requested; when the new id is not empty, the
  log is not cleared: it keeps the entries it had while one fetch of the new id's actions
  is issued, and it becomes the array of the response when that fetch resolves
  successfully.
\<close>

theorem selection_change_keeps_log_until_fetch:
  assumes "v \<noteq> selectedPlayerId (app w)" and "step (SelectPlayer v) w = Some w'"
  shows "if v = []
         then actions (app w') = [] \<and> selectedPlayer (app w') = None
              \<and> in_flight w' = in_flight w
         else actions (app w') = actions (app w)
              \<and> in_flight w' = in_flight w @ [GetActions v]
              \<and> (\<forall>xs. \<exists>w''. step (ActionsSettled v (resolved xs)) w' = Some w''
                        \<and> actions (app w'') = xs)"
  using assms
  by (auto simp: fetchActions_def fetchActions_settled_def selection_effect_def
      setters outside Let_def resolved_def fetchActions_try_def)

theorem selection_change_keeps_log_until_fetch_witness:
  "utf16 ''p2'' \<noteq> selectedPlayerId (app viewing)
   \<and> step (SelectPlayer (utf16 ''p2'')) viewing = Some reselected
   \<and> actions (app reselected) = [pick_lock]
   \<and> in_flight reselected = [GetActions (utf16 ''p2'')]
   \<and> (\<exists>w''. step (ActionsSettled (utf16 ''p2'') (resolved [])) reselected = Some w''
          \<and> actions (app w'') = [])
   \<and> [] \<noteq> selectedPlayerId (app viewing)
   \<and> actions (app (the (step (SelectPlayer []) viewing))) = []
   \<and> in_flight (the (step (SelectPlayer []) viewing)) = []"
proof -
  have h1: "utf16 ''p2'' \<noteq> selectedPlayerId (app viewing)"
    by (simp add: viewing_def showing_def utf16_def)
  have h2: "step (SelectPlayer (utf16 ''p2'')) viewing = Some reselected"
    using h1
    by (simp add: fetchActions_def selection_effect_def setters)
      (simp add: viewing_def reselected_def showing_def rogue_def mage_def fetch_def utf16_def)
  have h3: "[] \<noteq> selectedPlayerId (app viewing)"
    by (simp add: viewing_def showing_def utf16_def)
  have h4: "step (SelectPlayer []) viewing = Some (the (step (SelectPlayer []) viewing))"
    by simp
  have e: "actions (app viewing) = [pick_lock] \<and> in_flight viewing = []
      \<and> utf16 ''p2'' \<noteq> []"
    by (simp add: viewing_def showing_def utf16_def)
  show ?thesis
    using h1 h2 h3 e selection_change_keeps_log_until_fetch [OF h1 h2]
      selection_change_keeps_log_until_fetch [OF h3 h4]
    by auto
qed

text \<open>
  The claim as first stated fails on a trace from the mounted component: the list of two
  players arrives, the rogue is selected and its one action arrives, then the mage is
  selected. The log still shows the rogue's action while the mage is selected.
\<close>

theorem old_log_shown_for_new_player:
  "run old_log_trace mounted = Some reselected
   \<and> selectedPlayerId (app reselected) = utf16 ''p2''
   \<and> map player_id (actions (app reselected)) = [utf16 ''p1'']
   \<and> utf16 ''p1'' \<noteq> utf16 ''p2''
   \<and> \<not> log_scoped reselected"
proof -
  have t: "run old_log_trace mounted = Some reselected"
    by (simp add: old_log_trace_def mounted_def initial_def resolved_def reselected_def
        showing_def rogue_def mage_def pick_lock_def handlers fetchPlayers_try_def
        fetchActions_try_def setters outside utf16_def)
  have s: "selectedPlayerId (app reselected) = utf16 ''p2''
      \<and> map player_id (actions (app reselected)) = [utf16 ''p1'']"
    by (simp add: reselected_def showing_def pick_lock_def fetch_def)
  have n: "utf16 ''p1'' \<noteq> utf16 ''p2''"
    by (simp add: utf16_def)
  have l: "\<not> log_scoped reselected"
    using n by (simp add: log_scoped_def reselected_def showing_def pick_lock_def fetch_def)
  show ?thesis using t s n l by simp
qed

section \<open>Loading the player list\<close>

text \<open>
  C7. The component mounts with the loading flag up and the one player-list request in
  flight. In every reachable world in which that request settles, the flag was up and the
  list empty until then, the flag is down afterwards whatever the outcome, and no
  player-list request is in flight then or at any later time. When the request failed, the message of the
  failure is stored in \<open>error\<close>, the player list is still empty, and the settlement issued
  no request at all.
\<close>

theorem players_fetch_loading_and_failure:
  assumes "run es mounted = Some w" and "step (PlayersSettled r) w = Some w'"
  shows "loading (app mounted) \<and> in_flight mounted = [GetPlayers]
     \<and> loading (app w) \<and> players (app w) = []
     \<and> \<not> loading (app w')
     \<and> GetPlayers \<notin> set (in_flight w')
     \<and> (\<forall>es' w''. run es' w' = Some w'' \<longrightarrow> GetPlayers \<notin> set (in_flight w''))
     \<and> (request_failed r \<longrightarrow>
          error (app w') =
            Some (case r of Inl err \<Rightarrow> message_or (utf16 ''Unknown error'') err
                          | Inr response \<Rightarrow> utf16 ''Failed to fetch players'')
        \<and> players (app w') = []
        \<and> in_flight w' = remove1 GetPlayers (in_flight w))"
proof -
  have inv: "loading_inv w" using assms(1) by (rule reachable_loading_inv)
  have pend: "GetPlayers \<in> set (in_flight w)"
    using assms(2) by (auto split: if_splits)
  have before: "loading (app w)" "players (app w) = []"
    using inv pend by (auto simp: loading_inv_def)
  have inv': "loading_inv w'" using inv assms(2) by (rule loading_inv_step)
  have m: "loading (app mounted)" "in_flight mounted = [GetPlayers]"
    by (simp_all add: mounted_def initial_def handlers setters outside)
  have off: "\<not> loading (app w')"
    using assms(2) pend
    by (auto simp: handlers setters outside Let_def split: if_splits sum.splits)
  have gone: "GetPlayers \<notin> set (in_flight w')"
    using inv' off by (auto simp: loading_inv_def split: if_splits)
  have fail: "error (app w') =
            Some (case r of Inl err \<Rightarrow> message_or (utf16 ''Unknown error'') err
                          | Inr response \<Rightarrow> utf16 ''Failed to fetch players'')
        \<and> players (app w') = []
        \<and> in_flight w' = remove1 GetPlayers (in_flight w)" if "request_failed r"
    using that assms(2) pend before
    by (auto simp: request_failed_def fetchPlayers_settled_def fetchPlayers_try_def
        setters outside split: sum.splits)
  have never: "GetPlayers \<notin> set (in_flight w'')" if "run es' w' = Some w''" for es' w''
    using run_invariant[of "\<lambda>u. GetPlayers \<notin> set (in_flight u)" w' es' w'']
      gone no_players_request_step that by blast
  show ?thesis using m before off gone never fail by simp
qed

theorem players_fetch_loading_and_failure_witness:
  "run [] mounted = Some mounted
   \<and> request_failed (unreachable :: Player settled)
   \<and> loading (app mounted)
   \<and> (\<exists>w'. step (PlayersSettled unreachable) mounted = Some w'
          \<and> \<not> loading (app w')
          \<and> error (app w') = Some (utf16 ''Failed to fetch'')
          \<and> players (app w') = []
          \<and> in_flight w' = [])"
proof -
  have h1: "run [] mounted = Some mounted" by simp
  have m: "in_flight mounted = [GetPlayers]"
    by (simp add: mounted_def initial_def handlers setters outside)
  have h2: "step (PlayersSettled unreachable) mounted
      = Some (the (step (PlayersSettled unreachable) mounted))"
    using m by simp
  have h3: "request_failed (unreachable :: Player settled)"
    by (simp add: unreachable_def request_failed_def)
  have c: "(case (unreachable :: Player settled) of
              Inl err \<Rightarrow> message_or (utf16 ''Unknown error'') err
            | Inr response \<Rightarrow> utf16 ''Failed to fetch players'') = utf16 ''Failed to fetch''"
    by (simp add: unreachable_def)
  show ?thesis
    using h1 h2 h3 m c players_fetch_loading_and_failure [OF h1 h2] by auto
qed

end
